theory Spec2Isabelle
  imports Complex_Main "HOL-Library.Word"
begin

section \<open>JavaScript strings\<close>

text \<open>
  A JavaScript string is a sequence of 16-bit code units; equality, \<open>trim\<close>,
  \<open>includes\<close> and the regular expression of \<open>normalizeUrl\<close> all work on code
  units. \<open>js\<close> writes an ASCII literal of the source as such a sequence.
\<close>

type_synonym char16 = "16 word"
type_synonym jsstring = "char16 list"

definition js :: "string \<Rightarrow> jsstring" where
  "js s = map of_char s"

text \<open>
  \<open>String.prototype.trim\<close> removes the code units that ECMAScript calls WhiteSpace or
  LineTerminator from both ends: TAB, LF, VT, FF, CR, SPACE, NBSP, U+1680,
  U+2000 to U+200A, U+2028, U+2029, U+202F, U+205F, U+3000 and U+FEFF.
\<close>

definition isWhiteSpace :: "char16 \<Rightarrow> bool" where
  "isWhiteSpace c =
     (c = 0x09 \<or> c = 0x0A \<or> c = 0x0B \<or> c = 0x0C \<or> c = 0x0D \<or> c = 0x20 \<or>
      c = 0xA0 \<or> c = 0x1680 \<or> (0x2000 \<le> c \<and> c \<le> 0x200A) \<or>
      c = 0x2028 \<or> c = 0x2029 \<or> c = 0x202F \<or> c = 0x205F \<or> c = 0x3000 \<or>
      c = 0xFEFF)"

definition trimStart :: "jsstring \<Rightarrow> jsstring" where
  "trimStart s = dropWhile isWhiteSpace s"

definition trimEnd :: "jsstring \<Rightarrow> jsstring" where
  "trimEnd s = rev (dropWhile isWhiteSpace (rev s))"

definition trim :: "jsstring \<Rightarrow> jsstring" where
  "trim s = trimEnd (trimStart s)"

section \<open>The URL normalizer\<close>

text \<open>
  \<^verbatim>\<open>
  function normalizeUrl(input: string): string {
    const trimmed = input.trim();
    if (!/^https?:\/\//i.test(trimmed)) return `https://${trimmed}`;
    return trimmed;
  }
  \<close>
  The regular expression has the flag \<open>i\<close> and not the flag \<open>u\<close>: two code units
  match when their canonical forms are equal, the canonical form being the upper-case
  code unit, except that a code unit of value 128 or more is never mapped to one below
  128. The pattern is ASCII, so only the mapping of ASCII code units decides a match;
  code units from 128 on are kept as they are.
\<close>

definition Canonicalize :: "char16 \<Rightarrow> char16" where
  "Canonicalize c = (if 0x61 \<le> c \<and> c \<le> 0x7A then c - 0x20 else c)"

text \<open>A run of literal pattern characters: the rest of the input after the match.\<close>

fun matchLiteral :: "jsstring \<Rightarrow> jsstring \<Rightarrow> jsstring option" where
  "matchLiteral [] s = Some s"
| "matchLiteral (p # ps) [] = None"
| "matchLiteral (p # ps) (c # cs) =
     (if Canonicalize p = Canonicalize c then matchLiteral ps cs else None)"

text \<open>
  \<open>/^https?:\/\//i.test(s)\<close>: anchored at the start, \<open>http\<close>, then the greedy
  optional \<open>s\<close> (with the backtracking alternative of skipping it), then \<open>://\<close>.
\<close>

definition schemeRegexTest :: "jsstring \<Rightarrow> bool" where
  "schemeRegexTest s =
     (case matchLiteral (js ''http'') s of
        None \<Rightarrow> False
      | Some r \<Rightarrow>
          (case matchLiteral (js ''s'') r of
             Some r' \<Rightarrow>
               matchLiteral (js ''://'') r' \<noteq> None \<or> matchLiteral (js ''://'') r \<noteq> None
           | None \<Rightarrow> matchLiteral (js ''://'') r \<noteq> None))"

definition normalizeUrl :: "jsstring \<Rightarrow> jsstring" where
  "normalizeUrl input =
     (let trimmed = trim input
      in if \<not> schemeRegexTest trimmed then js ''https://'' @ trimmed else trimmed)"

text \<open>
  The words of the specification, for comparison: a string starts with a prefix, matched
  case-insensitively, when its first code units, letters \<open>A\<close> to \<open>Z\<close> lowered, are
  the prefix.
\<close>

definition asciiLower :: "char16 \<Rightarrow> char16" where
  "asciiLower c = (if 0x41 \<le> c \<and> c \<le> 0x5A then c + 0x20 else c)"

definition spec_startsWithCI :: "jsstring \<Rightarrow> jsstring \<Rightarrow> bool" where
  "spec_startsWithCI p s = (map asciiLower (take (length p) s) = p)"

definition spec_hasScheme :: "jsstring \<Rightarrow> bool" where
  "spec_hasScheme s =
     (spec_startsWithCI (js ''http://'') s \<or> spec_startsWithCI (js ''https://'') s)"


definition isTrimmed :: "jsstring \<Rightarrow> bool" where
  "isTrimmed s = (s = [] \<or> (\<not> isWhiteSpace (hd s) \<and> \<not> isWhiteSpace (last s)))"

section \<open>The data model (the response types the scanner imports)\<close>

text \<open>
  \<^verbatim>\<open>
  export type AxeImpact = "minor" | "moderate" | "serious" | "critical";
  export type AxeNode = { html?: string; target?: string[]; failureSummary?: string };
  export type AxeViolation = { id: string; impact?: AxeImpact; description: string;
    help: string; helpUrl?: string; tags: string[]; nodes: AxeNode[] };
  export type ScanResponse = { ok: boolean; url?: string; timestamp?: string;
    violations: AxeViolation[]; error?: string };
  \<close>
  An optional field is an \<open>option\<close>: \<open>None\<close> is the absent (undefined) field. The
  fields \<open>id\<close> and \<open>help\<close> are called \<open>id'\<close> and \<open>help'\<close> here: \<open>id\<close> is the
  identity function of HOL and \<open>help\<close> a command of Isabelle.
\<close>

datatype AxeImpact = Minor | Moderate | Serious | Critical

record AxeNode =
  html :: "jsstring option"
  target :: "jsstring list option"
  failureSummary :: "jsstring option"

record AxeViolation =
  id' :: jsstring
  impact :: "AxeImpact option"
  description :: jsstring
  help' :: jsstring
  helpUrl :: "jsstring option"
  tags :: "jsstring list"
  nodes :: "AxeNode list"

record ScanResponse =
  ok :: bool
  url :: "jsstring option"
  timestamp :: "jsstring option"
  violations :: "AxeViolation list"
  error :: "jsstring option"

section \<open>The result shaper\<close>

text \<open>
  The engine's result, \<open>AxeRunResult\<close> of scanWithAxe.ts. Its type declares
  \<open>violations\<close>, \<open>tags\<close> and \<open>nodes\<close> as present, but \<open>toScanResponse\<close> reads each of
  them through \<open>?? []\<close>, so the model lets them be absent.
\<close>

record RawNode =
  raw_html :: "jsstring option"
  raw_target :: "jsstring list option"
  raw_failureSummary :: "jsstring option"

record RawViolation =
  raw_id :: jsstring
  raw_impact :: "AxeImpact option"
  raw_description :: jsstring
  raw_help :: jsstring
  raw_helpUrl :: "jsstring option"
  raw_tags :: "jsstring list option"
  raw_nodes :: "RawNode list option"

record AxeRunResult =
  run_url :: "jsstring option"
  run_violations :: "RawViolation list option"

text \<open>\<open>xs ?? []\<close>\<close>

definition orEmpty :: "'a list option \<Rightarrow> 'a list" where
  "orEmpty xs = (case xs of None \<Rightarrow> [] | Some ys \<Rightarrow> ys)"

text \<open>
  \<^verbatim>\<open>
  function toScanResponse(url: string, result: AxeRunResult): ScanResponse {
    const violations: AxeViolation[] = (result.violations ?? []).map((v) => ({
      id: v.id, impact: v.impact, description: v.description, help: v.help,
      helpUrl: v.helpUrl, tags: v.tags ?? [],
      nodes: (v.nodes ?? []).map((n) => ({
        html: n.html, target: n.target, failureSummary: n.failureSummary })),
    }));
    return { ok: true, url, timestamp: new Date().toISOString(), violations };
  }
  \<close>
  The two arrow functions are \<open>shapeNode\<close> and \<open>shapeViolation\<close>. The function reads the
  clock: the first argument \<open>ts\<close> of the model is the value of
  \<open>new Date().toISOString()\<close> at the call.
\<close>

definition shapeNode :: "RawNode \<Rightarrow> AxeNode" where
  "shapeNode n =
     \<lparr>html = raw_html n, target = raw_target n, failureSummary = raw_failureSummary n\<rparr>"

definition shapeViolation :: "RawViolation \<Rightarrow> AxeViolation" where
  "shapeViolation v =
     \<lparr>id' = raw_id v, impact = raw_impact v, description = raw_description v,
      help' = raw_help v, helpUrl = raw_helpUrl v, tags = orEmpty (raw_tags v),
      nodes = map shapeNode (orEmpty (raw_nodes v))\<rparr>"

definition toScanResponse :: "jsstring \<Rightarrow> jsstring \<Rightarrow> AxeRunResult \<Rightarrow> ScanResponse" where
  "toScanResponse ts u result =
     (let vs = map shapeViolation (orEmpty (run_violations result))
      in \<lparr>ok = True, url = Some u, timestamp = Some ts, violations = vs, error = None\<rparr>)"

text \<open>
  A shaped response read again as engine output (the two types have the same fields, the
  shaped one with \<open>tags\<close> and \<open>nodes\<close> always present): what shaping a second time is
  applied to.
\<close>

definition nodeAsRaw :: "AxeNode \<Rightarrow> RawNode" where
  "nodeAsRaw n =
     \<lparr>raw_html = html n, raw_target = target n, raw_failureSummary = failureSummary n\<rparr>"

definition violationAsRaw :: "AxeViolation \<Rightarrow> RawViolation" where
  "violationAsRaw v =
     \<lparr>raw_id = id' v, raw_impact = impact v, raw_description = description v,
      raw_help = help' v, raw_helpUrl = helpUrl v, raw_tags = Some (tags v),
      raw_nodes = Some (map nodeAsRaw (nodes v))\<rparr>"

definition responseAsRaw :: "ScanResponse \<Rightarrow> AxeRunResult" where
  "responseAsRaw r =
     \<lparr>run_url = url r, run_violations = Some (map violationAsRaw (violations r))\<rparr>"

section \<open>The scan orchestrator\<close>

text \<open>
  A value that is thrown, or that a promise rejects with. The code reads two things of
  it, \<open>e?.message\<close> and \<open>e?.stack\<close>; either may be absent (\<open>throw null\<close> has neither).
  What reaches the two \<open>catch\<close> blocks is an Error of the runtime or of the browser
  library, and the message of such an Error is never the empty string: a TypeError of the
  runtime has a text, and the browser library puts the name of the API call in front of
  the message of every rejection (\<open>page.goto: net::ERR_NAME_NOT_RESOLVED ...\<close>). So a
  message, when there is one, is a non-empty string.
\<close>

typedef messageText = "{s :: jsstring. s \<noteq> []}"
  morphisms textOf mkText
  by (rule exI [of _ "[0]"]) simp

record thrown =
  message :: "messageText option"
  stack :: "jsstring option"

text \<open>
  The value that \<open>page.evaluate\<close> resolves with comes from the page and is cast, not
  checked (\<open>axeResult as AxeRunResult\<close>), so \<open>toScanResponse\<close> runs on it as it is. What
  decides whether the function throws:
  \<^item> the value itself is \<open>null\<close> or \<open>undefined\<close> (reading \<open>result.violations\<close> throws), or
    it is any other value, with its property \<open>violations\<close>;
  \<^item> a property read through \<open>?? []\<close> and then mapped (\<open>violations\<close>, \<open>nodes\<close>) is
    absent (\<open>undefined\<close> or \<open>null\<close>), or is a value that is no array (\<open>.map\<close> is not a
    function), or is an array;
  \<^item> an entry of such an array is \<open>null\<close> or \<open>undefined\<close> (reading \<open>v.id\<close> or \<open>n.html\<close>
    throws), or it is a record.
  The other properties are copied without being looked at, and the model keeps their
  declared types. An entry that is a number, a string or a boolean behaves as a record
  without properties and throws nothing; it would be copied with properties that the
  declared types do not have, so it is not among the values of the model, and no path of
  the function depends on it. Each throw is a TypeError of the runtime, whose text the
  runtime chooses: the function \<open>typeErrorAt\<close> gives the value thrown at each place.
\<close>

datatype 'a arrayField = FieldAbsent | FieldNoArray | FieldArray "'a list"

record EvalViolation =
  ev_id :: jsstring
  ev_impact :: "AxeImpact option"
  ev_description :: jsstring
  ev_help :: jsstring
  ev_helpUrl :: "jsstring option"
  ev_tags :: "jsstring list option"
  ev_nodes :: "RawNode option arrayField"

datatype EvalValue = EvalNullish | EvalObject "EvalViolation option arrayField"

datatype shapingSite = ReadViolations | MapViolations | ReadViolationId | MapNodes | ReadNodeHtml

text \<open>\<open>(v.nodes ?? []).map((n) => ({ html: n.html, ... }))\<close> on the entries as they are.\<close>

fun shapeNodesUnchecked ::
  "(shapingSite \<Rightarrow> thrown) \<Rightarrow> RawNode option list \<Rightarrow> thrown + AxeNode list" where
  "shapeNodesUnchecked typeErrorAt [] = Inr []"
| "shapeNodesUnchecked typeErrorAt (None # ns) = Inl (typeErrorAt ReadNodeHtml)"
| "shapeNodesUnchecked typeErrorAt (Some n # ns) =
     (case shapeNodesUnchecked typeErrorAt ns of
        Inl e \<Rightarrow> Inl e
      | Inr ms \<Rightarrow> Inr (shapeNode n # ms))"

text \<open>The outer arrow function on a record \<open>v\<close>.\<close>

definition shapeViolationUnchecked ::
  "(shapingSite \<Rightarrow> thrown) \<Rightarrow> EvalViolation \<Rightarrow> thrown + AxeViolation" where
  "shapeViolationUnchecked typeErrorAt v =
     (case (case ev_nodes v of
              FieldAbsent \<Rightarrow> Inr []
            | FieldNoArray \<Rightarrow> Inl (typeErrorAt MapNodes)
            | FieldArray ns \<Rightarrow> shapeNodesUnchecked typeErrorAt ns) of
        Inl e \<Rightarrow> Inl e
      | Inr ms \<Rightarrow>
          Inr \<lparr>id' = ev_id v, impact = ev_impact v, description = ev_description v,
               help' = ev_help v, helpUrl = ev_helpUrl v, tags = orEmpty (ev_tags v),
               nodes = ms\<rparr>)"

fun shapeViolationsUnchecked ::
  "(shapingSite \<Rightarrow> thrown) \<Rightarrow> EvalViolation option list \<Rightarrow> thrown + AxeViolation list" where
  "shapeViolationsUnchecked typeErrorAt [] = Inr []"
| "shapeViolationsUnchecked typeErrorAt (None # vs) = Inl (typeErrorAt ReadViolationId)"
| "shapeViolationsUnchecked typeErrorAt (Some v # vs) =
     (case shapeViolationUnchecked typeErrorAt v of
        Inl e \<Rightarrow> Inl e
      | Inr x \<Rightarrow>
          (case shapeViolationsUnchecked typeErrorAt vs of
             Inl e \<Rightarrow> Inl e
           | Inr xs \<Rightarrow> Inr (x # xs)))"

text \<open>
  \<open>toScanResponse(targetUrl, axeResult as AxeRunResult)\<close> as it runs: the function
  \<open>toScanResponse\<close> above on the unchecked value, returning (\<open>Inr\<close>) or throwing (\<open>Inl\<close>).
\<close>

definition toScanResponseUnchecked ::
  "(shapingSite \<Rightarrow> thrown) \<Rightarrow> jsstring \<Rightarrow> jsstring \<Rightarrow> EvalValue \<Rightarrow> thrown + ScanResponse" where
  "toScanResponseUnchecked typeErrorAt ts u result =
     (case result of
        EvalNullish \<Rightarrow> Inl (typeErrorAt ReadViolations)
      | EvalObject field \<Rightarrow>
          (case (case field of
                   FieldAbsent \<Rightarrow> Inr []
                 | FieldNoArray \<Rightarrow> Inl (typeErrorAt MapViolations)
                 | FieldArray vs \<Rightarrow> shapeViolationsUnchecked typeErrorAt vs) of
             Inl e \<Rightarrow> Inl e
           | Inr xs \<Rightarrow>
               Inr \<lparr>ok = True, url = Some u, timestamp = Some ts, violations = xs,
                    error = None\<rparr>))"

text \<open>A value of the declared type \<open>AxeRunResult\<close>, as the value it is at run time.\<close>

definition violationAsEval :: "RawViolation \<Rightarrow> EvalViolation" where
  "violationAsEval v =
     \<lparr>ev_id = raw_id v, ev_impact = raw_impact v, ev_description = raw_description v,
      ev_help = raw_help v, ev_helpUrl = raw_helpUrl v, ev_tags = raw_tags v,
      ev_nodes = (case raw_nodes v of
                    None \<Rightarrow> FieldAbsent
                  | Some ns \<Rightarrow> FieldArray (map Some ns))\<rparr>"

definition resultAsEval :: "AxeRunResult \<Rightarrow> EvalValue" where
  "resultAsEval result =
     EvalObject (case run_violations result of
                   None \<Rightarrow> FieldAbsent
                 | Some vs \<Rightarrow> FieldArray (map (\<lambda>v. Some (violationAsEval v)) vs))"

text \<open>
  What the browser library, the runtime and the clock do during one call of
  \<open>scanWithAxe\<close>: for each awaited call whether it resolves (\<open>None\<close>, or the value for
  \<open>page.evaluate\<close>) or rejects with a thrown value, the TypeError that the runtime throws
  at each place of \<open>toScanResponse\<close>, and the text of \<open>new Date().toISOString()\<close>. The
  two timeout setters and the computation of \<open>axePath\<close> have no outcome that any property
  below depends on and are not in the record.
\<close>

record env =
  launch :: "thrown option"
  newContext :: "thrown option"
  newPage :: "thrown option"
  goto :: "jsstring \<Rightarrow> thrown option"
  waitForTimeout :: "thrown option"
  addScriptTag :: "thrown option"
  evaluate :: "thrown + EvalValue"
  typeErrorAt :: "shapingSite \<Rightarrow> thrown"
  close :: "thrown option"
  now :: jsstring

text \<open>
  Counters of what a call does to the browser library: the calls of
  \<open>chromium.launch\<close>, the browsers they returned, and the calls of \<open>browser.close\<close>.
\<close>

record world =
  launchCalls :: nat
  acquired :: nat
  released :: nat

text \<open>An awaited call followed by the rest of the \<open>try\<close> block.\<close>

definition await :: "thrown option \<Rightarrow> (thrown + 'a) \<Rightarrow> thrown + 'a" where
  "await outcome rest = (case outcome of Some e \<Rightarrow> Inl e | None \<Rightarrow> rest)"

text \<open>
  The \<open>try\<close> block after \<open>chromium.launch\<close> has resolved:
  \<^verbatim>\<open>
    const context = await browser.newContext({ ignoreHTTPSErrors: true });
    const page = await context.newPage();
    ...
    await page.goto(targetUrl, { waitUntil: "domcontentloaded" });
    await page.waitForTimeout(800);
    ...
    await page.addScriptTag({ path: axePath });
    const axeResult = await page.evaluate(async () => { ... });
    return toScanResponse(targetUrl, axeResult as AxeRunResult);
  \<close>
\<close>

definition tryBlock :: "env \<Rightarrow> jsstring \<Rightarrow> thrown + ScanResponse" where
  "tryBlock ev targetUrl =
     await (newContext ev)
       (await (newPage ev)
          (await (goto ev targetUrl)
             (await (waitForTimeout ev)
                (await (addScriptTag ev)
                   (case evaluate ev of
                      Inl e \<Rightarrow> Inl e
                    | Inr axeResult \<Rightarrow>
                        toScanResponseUnchecked (typeErrorAt ev) (now ev) targetUrl
                          axeResult)))))"

text \<open>
  The \<open>catch\<close> block:
  \<^verbatim>\<open>
    return { ok: false, url: targetUrl, timestamp: new Date().toISOString(),
             violations: [], error: e?.message ?? "Scan failed" };
  \<close>
\<close>

definition catchBlock :: "env \<Rightarrow> jsstring \<Rightarrow> thrown \<Rightarrow> ScanResponse" where
  "catchBlock ev targetUrl e =
     \<lparr>ok = False, url = Some targetUrl, timestamp = Some (now ev), violations = [],
      error = Some (case message e of None \<Rightarrow> js ''Scan failed'' | Some m \<Rightarrow> textOf m)\<rparr>"

text \<open>
  \<^verbatim>\<open>
  export async function scanWithAxe(url: string): Promise<ScanResponse> {
    const targetUrl = normalizeUrl(url);
    let browser: Browser | null = null;
    try {
      browser = await chromium.launch({ ... });
      ...
    } catch (e: any) {
      return { ok: false, ... };
    } finally {
      if (browser) await browser.close();
    }
  }
  \<close>
  The result is the new state of the counters and either the response that the promise
  resolves with (\<open>Inr\<close>) or the value it rejects with (\<open>Inl\<close>). When \<open>chromium.launch\<close>
  rejects, \<open>browser\<close> is still \<open>null\<close> and the \<open>finally\<close> block does nothing. Otherwise
  \<open>browser.close()\<close> is awaited after the \<open>try\<close> or the \<open>catch\<close> block has returned;
  when it rejects, that rejection replaces the value returned.
\<close>

definition scanWithAxe :: "env \<Rightarrow> world \<Rightarrow> jsstring \<Rightarrow> world \<times> (thrown + ScanResponse)" where
  "scanWithAxe ev w u =
     (let targetUrl = normalizeUrl u;
          w1 = w\<lparr>launchCalls := launchCalls w + 1\<rparr>
      in case launch ev of
           Some e \<Rightarrow> (w1, Inr (catchBlock ev targetUrl e))
         | None \<Rightarrow>
             (let w2 = w1\<lparr>acquired := acquired w1 + 1\<rparr>;
                  completion = (case tryBlock ev targetUrl of
                                  Inl e \<Rightarrow> catchBlock ev targetUrl e
                                | Inr r \<Rightarrow> r);
                  w3 = w2\<lparr>released := released w2 + 1\<rparr>
              in case close ev of
                   Some e \<Rightarrow> (w3, Inl e)
                 | None \<Rightarrow> (w3, Inr completion)))"

text \<open>
  The stages of a scan in the order of the code, each with the value it failed with, if
  it failed: browser acquisition (launch, context, page), navigation (goto and the settle
  delay), script injection, audit execution, shaping.
\<close>

definition shapingFailure :: "env \<Rightarrow> jsstring \<Rightarrow> thrown option" where
  "shapingFailure ev targetUrl =
     (case evaluate ev of
        Inl _ \<Rightarrow> None
      | Inr axeResult \<Rightarrow>
          (case toScanResponseUnchecked (typeErrorAt ev) (now ev) targetUrl axeResult of
             Inl e \<Rightarrow> Some e
           | Inr _ \<Rightarrow> None))"

definition stages :: "env \<Rightarrow> jsstring \<Rightarrow> thrown option list" where
  "stages ev targetUrl =
     [launch ev, newContext ev, newPage ev, goto ev targetUrl, waitForTimeout ev,
      addScriptTag ev, (case evaluate ev of Inl e \<Rightarrow> Some e | Inr _ \<Rightarrow> None),
      shapingFailure ev targetUrl]"

text \<open>The stage at index \<open>i\<close> is the first one that fails, and fails with \<open>e\<close>.\<close>

definition firstFailure :: "thrown option list \<Rightarrow> nat \<Rightarrow> thrown \<Rightarrow> bool" where
  "firstFailure sts i e =
     (i < length sts \<and> sts ! i = Some e \<and> list_all (\<lambda>s. s = None) (take i sts))"

text \<open>Several calls, one after the other, each with its own outcomes.\<close>

fun scanMany :: "world \<Rightarrow> (env \<times> jsstring) list \<Rightarrow> world \<times> (thrown + ScanResponse) list" where
  "scanMany w [] = (w, [])"
| "scanMany w ((ev, u) # calls) =
     (case scanWithAxe ev w u of
        (w', r) \<Rightarrow> (case scanMany w' calls of (w'', rs) \<Rightarrow> (w'', r # rs)))"

section \<open>The HTTP endpoint\<close>

text \<open>A parsed JSON value, as \<open>req.json()\<close> resolves with.\<close>

datatype json =
  JNull
| JBool bool
| JNum real
| JStr jsstring
| JArr "json list"
| JObj "(jsstring \<times> json) list"

record HttpResponse =
  status :: nat
  body :: ScanResponse

text \<open>
  \<open>const { url } = value\<close>: destructuring \<open>null\<close> throws a TypeError (the argument
  \<open>typeError\<close>, whose text is the runtime's); an object gives its property \<open>url\<close>, or
  undefined (\<open>None\<close>) when it has none; a boolean, a number, a string or an array has no
  property \<open>url\<close>.
\<close>

fun destructureUrl :: "thrown \<Rightarrow> json \<Rightarrow> thrown + json option" where
  "destructureUrl typeError JNull = Inl typeError"
| "destructureUrl typeError (JObj props) = Inr (map_of props (js ''url''))"
| "destructureUrl typeError v = Inr None"

text \<open>\<open>!url\<close> is the negation of \<open>truthy\<close>; \<open>typeof url\<close>.\<close>

fun truthy :: "json option \<Rightarrow> bool" where
  "truthy None = False"
| "truthy (Some JNull) = False"
| "truthy (Some (JBool b)) = b"
| "truthy (Some (JNum x)) = (x \<noteq> 0)"
| "truthy (Some (JStr s)) = (s \<noteq> [])"
| "truthy (Some (JArr xs)) = True"
| "truthy (Some (JObj props)) = True"

fun typeof :: "json option \<Rightarrow> jsstring" where
  "typeof None = js ''undefined''"
| "typeof (Some JNull) = js ''object''"
| "typeof (Some (JBool b)) = js ''boolean''"
| "typeof (Some (JNum x)) = js ''number''"
| "typeof (Some (JStr s)) = js ''string''"
| "typeof (Some (JArr xs)) = js ''object''"
| "typeof (Some (JObj props)) = js ''object''"

definition missingUrlResponse :: HttpResponse where
  "missingUrlResponse =
     \<lparr>status = 400,
      body = \<lparr>ok = False, url = None, timestamp = None, violations = [],
              error = Some (js ''Missing url'')\<rparr>\<rparr>"

text \<open>
  The \<open>catch\<close> block of the handler:
  \<^verbatim>\<open>
    return NextResponse.json(
      { ok: false, violations: [],
        error: `${e?.message ?? "Scan failed"}\n${e?.stack ?? ""}` },
      { status: 500 });
  \<close>
\<close>

definition handlerCatch :: "thrown \<Rightarrow> HttpResponse" where
  "handlerCatch e =
     \<lparr>status = 500,
      body = \<lparr>ok = False, url = None, timestamp = None, violations = [],
              error = Some ((case message e of None \<Rightarrow> js ''Scan failed''
                             | Some m \<Rightarrow> textOf m)
                            @ [0x0A] @ (case stack e of None \<Rightarrow> [] | Some t \<Rightarrow> t))\<rparr>\<rparr>"

text \<open>
  \<^verbatim>\<open>
  export async function POST(req: Request) {
    try {
      const { url } = (await req.json()) as { url?: string };
      if (!url || typeof url !== "string") {
        return NextResponse.json(
          { ok: false, violations: [], error: "Missing url" }, { status: 400 });
      }
      const result = await scanWithAxe(url);
      if (!result.ok) {
        return NextResponse.json(result, { status: 500 });
      }
      return NextResponse.json(result, { status: 200 });
    } catch (e: any) { ... }
  }
  \<close>
  The argument \<open>parsed\<close> is what \<open>await req.json()\<close> does: it rejects (\<open>Inl\<close>, a body
  that is not JSON) or resolves with the parsed value. Past the check, \<open>url\<close> is a string;
  the last case of the model is never reached.
\<close>

definition POST :: "thrown \<Rightarrow> env \<Rightarrow> world \<Rightarrow> thrown + json \<Rightarrow> world \<times> HttpResponse" where
  "POST typeError ev w parsed =
     (case (case parsed of Inl e \<Rightarrow> Inl e | Inr v \<Rightarrow> destructureUrl typeError v) of
        Inl e \<Rightarrow> (w, handlerCatch e)
      | Inr urlField \<Rightarrow>
          if \<not> truthy urlField \<or> typeof urlField \<noteq> js ''string'' then (w, missingUrlResponse)
          else (case urlField of
                  Some (JStr s) \<Rightarrow>
                    (case scanWithAxe ev w s of
                       (w', Inl e) \<Rightarrow> (w', handlerCatch e)
                     | (w', Inr result) \<Rightarrow>
                         if \<not> ok result then (w', \<lparr>status = 500, body = result\<rparr>)
                         else (w', \<lparr>status = 200, body = result\<rparr>))
                | _ \<Rightarrow> (w, missingUrlResponse)))"

section \<open>The impact filter of the client\<close>

text \<open>
  The state \<open>minImpact\<close> of the form has the type
  \<open>"all" | "moderate" | "serious" | "critical"\<close>.
\<close>

datatype MinImpact = MinAll | MinModerate | MinSerious | MinCritical

definition minImpactKey :: "MinImpact \<Rightarrow> jsstring" where
  "minImpactKey m =
     (case m of MinAll \<Rightarrow> js ''all'' | MinModerate \<Rightarrow> js ''moderate''
      | MinSerious \<Rightarrow> js ''serious'' | MinCritical \<Rightarrow> js ''critical'')"

definition impactKey :: "AxeImpact \<Rightarrow> jsstring" where
  "impactKey i =
     (case i of Minor \<Rightarrow> js ''minor'' | Moderate \<Rightarrow> js ''moderate''
      | Serious \<Rightarrow> js ''serious'' | Critical \<Rightarrow> js ''critical'')"

text \<open>
  \<^verbatim>\<open>
  const IMPACT_RANK: Record<string, number> = {
    minor: 1, moderate: 2, serious: 3, critical: 4 };

  function passesImpact(impact?: string) {
    if (minImpact === "all") return true;
    const rank = IMPACT_RANK[impact ?? "minor"] ?? 0;
    return rank >= IMPACT_RANK[minImpact];
  }
  \<close>
  A comparison with a missing rank (\<open>undefined\<close>) is false.
\<close>

definition IMPACT_RANK :: "jsstring \<rightharpoonup> nat" where
  "IMPACT_RANK =
     map_of [(js ''minor'', 1), (js ''moderate'', 2), (js ''serious'', 3), (js ''critical'', 4)]"

definition passesImpact :: "MinImpact \<Rightarrow> jsstring option \<Rightarrow> bool" where
  "passesImpact minImpact imp =
     (if minImpact = MinAll then True
      else (let rank = (case IMPACT_RANK (case imp of None \<Rightarrow> js ''minor'' | Some i \<Rightarrow> i) of
                          None \<Rightarrow> 0 | Some r \<Rightarrow> r)
            in case IMPACT_RANK (minImpactKey minImpact) of
                 None \<Rightarrow> False
               | Some threshold \<Rightarrow> rank \<ge> threshold))"

text \<open>\<open>s.includes(q)\<close> (\<open>includes\<close> is a keyword of Isabelle) and \<open>xs.join(sep)\<close>.\<close>

fun includes' :: "jsstring \<Rightarrow> jsstring \<Rightarrow> bool" where
  "includes' [] q = (q = [])"
| "includes' (c # cs) q = (take (length q) (c # cs) = q \<or> includes' cs q)"

fun join :: "jsstring \<Rightarrow> jsstring list \<Rightarrow> jsstring" where
  "join sep [] = []"
| "join sep [x] = x"
| "join sep (x # y # ys) = x @ sep @ join sep (y # ys)"

text \<open>
  \<^verbatim>\<open>
  const filteredViolations = useMemo(() => {
    if (!data) return [];
    const q = query.trim().toLowerCase();
    return data.violations.filter((v) => {
      const matchesImpact = passesImpact(v.impact);
      const matchesQuery = !q || v.id.toLowerCase().includes(q) ||
        v.help.toLowerCase().includes(q) || v.description.toLowerCase().includes(q) ||
        v.tags.join(",").toLowerCase().includes(q);
      return matchesImpact && matchesQuery;
    });
  }, [data, query, minImpact]);
  \<close>
  \<open>toLowerCase\<close> follows the Unicode tables of the runtime; it is the argument \<open>lower\<close>.
\<close>

definition matchesQuery :: "(jsstring \<Rightarrow> jsstring) \<Rightarrow> jsstring \<Rightarrow> AxeViolation \<Rightarrow> bool" where
  "matchesQuery lower q v =
     (q = [] \<or> includes' (lower (id' v)) q \<or> includes' (lower (help' v)) q \<or>
      includes' (lower (description v)) q \<or> includes' (lower (join (js '','') (tags v))) q)"

definition filteredViolations ::
  "(jsstring \<Rightarrow> jsstring) \<Rightarrow> ScanResponse option \<Rightarrow> jsstring \<Rightarrow> MinImpact \<Rightarrow> AxeViolation list" where
  "filteredViolations lower data query minImpact =
     (case data of
        None \<Rightarrow> []
      | Some d \<Rightarrow>
          (let q = lower (trim query)
           in filter (\<lambda>v. passesImpact minImpact (map_option impactKey (impact v)) \<and>
                          matchesQuery lower q v)
                (violations d)))"

section \<open>Definitions used to state the properties\<close>

text \<open>The number of calls, in a list of calls, whose \<open>chromium.launch\<close> resolves.\<close>

definition launched :: "(env \<times> jsstring) list \<Rightarrow> nat" where
  "launched calls = length (filter (\<lambda>c. launch (fst c) = None) calls)"

text \<open>
  The words of the specification for a request without a usable \<open>url\<close>: the field is
  missing, is not a string, or is the empty string.
\<close>

fun spec_urlMissing :: "json option \<Rightarrow> bool" where
  "spec_urlMissing None = True"
| "spec_urlMissing (Some (JStr s)) = (s = [])"
| "spec_urlMissing (Some v) = True"

text \<open>
  The field \<open>url\<close> of a request body: a JSON object has the field it lists or none, and
  any other JSON value has none.
\<close>

fun spec_urlField :: "json \<Rightarrow> json option" where
  "spec_urlField (JObj props) = map_of props (js ''url'')"
| "spec_urlField v = None"

section \<open>Concrete inputs\<close>

text \<open>
  An engine result with one violation of the rule \<open>image-alt\<close> that has no \<open>tags\<close> and no
  \<open>impact\<close>, and outcomes of the browser library: a scan where every call resolves,
  scans where one call rejects, a scan where \<open>page.evaluate\<close> resolves with \<open>undefined\<close>,
  and a scan of a page without violations.
\<close>

definition rawImageAlt :: RawViolation where
  "rawImageAlt =
     \<lparr>raw_id = js ''image-alt'', raw_impact = None,
      raw_description = js ''Ensure images have alternative text'',
      raw_help = js ''Images must have alternative text'',
      raw_helpUrl = None, raw_tags = None,
      raw_nodes = Some [\<lparr>raw_html = Some (js ''<img src=x>''), raw_target = Some [js ''img''],
                          raw_failureSummary = None\<rparr>]\<rparr>"

definition rawLinkName :: RawViolation where
  "rawLinkName =
     \<lparr>raw_id = js ''link-name'', raw_impact = Some Serious,
      raw_description = js ''Ensure links have discernible text'',
      raw_help = js ''Links must have discernible text'',
      raw_helpUrl = None, raw_tags = Some [js ''wcag2a'', js ''wcag244''],
      raw_nodes = None\<rparr>"

definition engineResult :: AxeRunResult where
  "engineResult = \<lparr>run_url = None, run_violations = Some [rawImageAlt, rawLinkName]\<rparr>"

definition world0 :: world where
  "world0 = \<lparr>launchCalls = 0, acquired = 0, released = 0\<rparr>"

definition errNameNotResolved :: thrown where
  "errNameNotResolved =
     \<lparr>message = Some (mkText (js ''page.goto: net::ERR_NAME_NOT_RESOLVED'')),
      stack = Some (js ''Error: at goto'')\<rparr>"

definition errLaunch :: thrown where
  "errLaunch =
     \<lparr>message = Some (mkText (js ''browserType.launch: Executable does not exist'')),
      stack = None\<rparr>"

definition errClose :: thrown where
  "errClose = \<lparr>message = Some (mkText (js ''browser.close: Connection closed'')), stack = None\<rparr>"

definition errTypeError :: thrown where
  "errTypeError = \<lparr>message = Some (mkText (js ''Cannot destructure property'')), stack = None\<rparr>"

definition errReadOfUndefined :: thrown where
  "errReadOfUndefined =
     \<lparr>message = Some (mkText (js ''Cannot read properties of undefined'')), stack = None\<rparr>"

definition envOk :: env where
  "envOk =
     \<lparr>launch = None, newContext = None, newPage = None, goto = (\<lambda>_. None),
      waitForTimeout = None, addScriptTag = None, evaluate = Inr (resultAsEval engineResult),
      typeErrorAt = (\<lambda>_. errReadOfUndefined),
      close = None, now = js ''2025-12-30T10:00:00.000Z''\<rparr>"

definition envGotoFails :: env where
  "envGotoFails = envOk\<lparr>goto := (\<lambda>_. Some errNameNotResolved)\<rparr>"

definition envUndefinedResult :: env where
  "envUndefinedResult = envOk\<lparr>evaluate := Inr EvalNullish\<rparr>"


definition envLaunchFails :: env where
  "envLaunchFails = envOk\<lparr>launch := Some errLaunch\<rparr>"

definition envCloseFails :: env where
  "envCloseFails = envOk\<lparr>close := Some errClose\<rparr>"

section \<open>Properties of the URL normalizer\<close>

subsection \<open>The regular expression against the words of the specification\<close>

lemma Canonicalize_eq_iff:
  "Canonicalize p = Canonicalize c \<longleftrightarrow> asciiLower c = asciiLower p"
  unfolding Canonicalize_def asciiLower_def
  by (auto simp: word_le_nat_alt word_less_nat_alt unat_sub unat_word_ariths word_unat_eq_iff split: if_splits)

lemma matchLiteral_iff:
  "matchLiteral p s \<noteq> None \<longleftrightarrow>
     length p \<le> length s \<and> map asciiLower (take (length p) s) = map asciiLower p"
  by (induction p s rule: matchLiteral.induct) (auto simp: Canonicalize_eq_iff)

lemma matchLiteral_append:
  "matchLiteral (p @ q) s =
     (case matchLiteral p s of None \<Rightarrow> None | Some r \<Rightarrow> matchLiteral q r)"
  by (induction p s rule: matchLiteral.induct) auto

lemma matchLiteral_lower:
  assumes "map asciiLower p = p"
  shows "matchLiteral p s \<noteq> None \<longleftrightarrow> spec_startsWithCI p s"
proof -
  have len: "length p \<le> length s" if "map asciiLower (take (length p) s) = p"
  proof -
    have "length (map asciiLower (take (length p) s)) = length p"
      using that by simp
    then show ?thesis by simp
  qed
  have "matchLiteral p s \<noteq> None \<longleftrightarrow>
      length p \<le> length s \<and> map asciiLower (take (length p) s) = p"
    using matchLiteral_iff [of p s] assms by simp
  also have "\<dots> \<longleftrightarrow> spec_startsWithCI p s"
    using len by (auto simp: spec_startsWithCI_def)
  finally show ?thesis .
qed

lemma js_http: "js ''http://'' = js ''http'' @ js ''://''"
  by (simp add: js_def)

lemma js_https: "js ''https://'' = js ''http'' @ js ''s'' @ js ''://''"
  by (simp add: js_def)

lemma lower_http: "map asciiLower (js ''http://'') = js ''http://''"
  by (simp add: js_def asciiLower_def)

lemma lower_https: "map asciiLower (js ''https://'') = js ''https://''"
  by (simp add: js_def asciiLower_def)

lemma schemeRegexTest_spec: "schemeRegexTest s = spec_hasScheme s"
proof -
  have "spec_startsWithCI (js ''http://'') s \<longleftrightarrow> matchLiteral (js ''http://'') s \<noteq> None"
    by (rule matchLiteral_lower [OF lower_http, symmetric])
  then have a: "spec_startsWithCI (js ''http://'') s \<longleftrightarrow>
        (case matchLiteral (js ''http'') s of None \<Rightarrow> False
         | Some r \<Rightarrow> matchLiteral (js ''://'') r \<noteq> None)"
    by (simp add: js_http matchLiteral_append split: option.splits)
  have "spec_startsWithCI (js ''https://'') s \<longleftrightarrow> matchLiteral (js ''https://'') s \<noteq> None"
    by (rule matchLiteral_lower [OF lower_https, symmetric])
  then have b: "spec_startsWithCI (js ''https://'') s \<longleftrightarrow>
        (case matchLiteral (js ''http'') s of None \<Rightarrow> False
         | Some r \<Rightarrow> (case matchLiteral (js ''s'') r of None \<Rightarrow> False
              | Some r' \<Rightarrow> matchLiteral (js ''://'') r' \<noteq> None))"
    by (simp add: js_https matchLiteral_append split: option.splits)
  show ?thesis
    unfolding spec_hasScheme_def a b schemeRegexTest_def
    by (auto split: option.splits)
qed

lemma trim_of_trimmed:
  assumes "isTrimmed s"
  shows "trim s = s"
proof (cases "s = []")
  case True
  then show ?thesis by (simp add: trim_def trimStart_def trimEnd_def)
next
  case False
  with assms have h: "\<not> isWhiteSpace (hd s)" and l: "\<not> isWhiteSpace (last s)"
    by (simp_all add: isTrimmed_def)
  have 1: "dropWhile isWhiteSpace s = s"
    using h by (simp add: dropWhile_eq_self_iff)
  have "\<not> isWhiteSpace (hd (rev s))"
    using l False by (simp add: hd_rev)
  then have 2: "dropWhile isWhiteSpace (rev s) = rev s"
    by (simp add: dropWhile_eq_self_iff)
  show ?thesis
    by (simp add: trim_def trimStart_def trimEnd_def 1 2)
qed

lemma trimEnd_decomp:
  "s = trimEnd s @ rev (takeWhile isWhiteSpace (rev s))"
proof -
  have "rev s = takeWhile isWhiteSpace (rev s) @ dropWhile isWhiteSpace (rev s)"
    by simp
  then have "rev (rev s) = rev (takeWhile isWhiteSpace (rev s) @ dropWhile isWhiteSpace (rev s))"
    by (rule arg_cong)
  then show ?thesis unfolding trimEnd_def rev_append rev_rev_ident .
qed

lemma trimEnd_hd: "trimEnd s \<noteq> [] \<Longrightarrow> hd (trimEnd s) = hd s"
  using trimEnd_decomp [of s] by (metis hd_append2)

lemma trimEnd_last: "trimEnd s \<noteq> [] \<Longrightarrow> \<not> isWhiteSpace (last (trimEnd s))"
  unfolding trimEnd_def by (simp add: last_rev hd_dropWhile)

lemma trimStart_hd: "trimStart s \<noteq> [] \<Longrightarrow> \<not> isWhiteSpace (hd (trimStart s))"
  unfolding trimStart_def by (simp add: hd_dropWhile)

lemma trim_isTrimmed: "isTrimmed (trim s)"
  unfolding isTrimmed_def trim_def
  by (metis trimEnd_hd trimEnd_last trimStart_hd trimEnd_def dropWhile.simps(1) rev.simps(1))

lemma trim_decomp:
  "s = takeWhile isWhiteSpace s @ trim s @ rev (takeWhile isWhiteSpace (rev (trimStart s)))"
proof -
  have "s = takeWhile isWhiteSpace s @ trimStart s"
    by (simp add: trimStart_def)
  also have "trimStart s = trim s @ rev (takeWhile isWhiteSpace (rev (trimStart s)))"
    unfolding trim_def by (rule trimEnd_decomp)
  finally show ?thesis .
qed

lemma list_all_takeWhile: "list_all P (takeWhile P xs)"
  by (induction xs) auto

lemma https_prefix_scheme: "schemeRegexTest (js ''https://'' @ t)"
  unfolding schemeRegexTest_spec spec_hasScheme_def spec_startsWithCI_def
  by (simp add: js_def asciiLower_def)

lemma https_prefix_trimmed: "isTrimmed t \<Longrightarrow> isTrimmed (js ''https://'' @ t)"
  unfolding isTrimmed_def by (auto simp: js_def isWhiteSpace_def)

text \<open>
  Claim C3. For every input string, the normalizer first trims the surrounding white
  space; when the trimmed string does not start with \<open>http://\<close> or \<open>https://\<close>, matched
  case-insensitively, the result is the trimmed string with \<open>https://\<close> in front of it,
  and otherwise it is the trimmed string unchanged. The trimmed string is the input
  without a run of white space at each end, and neither begins nor ends with white space.
\<close>

theorem normalizeUrl_spec:
  "normalizeUrl input =
     (if spec_hasScheme (trim input) then trim input else js ''https://'' @ trim input)
   \<and> (\<exists>a b. input = a @ trim input @ b \<and> list_all isWhiteSpace a \<and> list_all isWhiteSpace b)
   \<and> (trim input = [] \<or>
        (\<not> isWhiteSpace (hd (trim input)) \<and> \<not> isWhiteSpace (last (trim input))))"
proof (intro conjI)
  show "normalizeUrl input =
     (if spec_hasScheme (trim input) then trim input else js ''https://'' @ trim input)"
    by (simp add: normalizeUrl_def schemeRegexTest_spec)
  have "list_all isWhiteSpace (rev (takeWhile isWhiteSpace (rev (trimStart input))))"
    by (simp add: list_all_takeWhile)
  then show "\<exists>a b. input = a @ trim input @ b \<and> list_all isWhiteSpace a \<and> list_all isWhiteSpace b"
    using trim_decomp [of input] list_all_takeWhile [of isWhiteSpace input] by blast
  show "trim input = [] \<or>
        (\<not> isWhiteSpace (hd (trim input)) \<and> \<not> isWhiteSpace (last (trim input)))"
    using trim_isTrimmed [of input] by (simp add: isTrimmed_def)
qed

theorem normalizeUrl_spec_witness:
  "normalizeUrl (js '' Example.com  '') = js ''https://Example.com'' \<and>
   normalizeUrl (js ''  HTTP://a.b'') = js ''HTTP://a.b''"
  using normalizeUrl_spec [of "js '' Example.com  ''"] normalizeUrl_spec [of "js ''  HTTP://a.b''"]
  by (simp add: trim_def trimStart_def trimEnd_def isWhiteSpace_def js_def
      spec_hasScheme_def spec_startsWithCI_def asciiLower_def)

text \<open>
  Claim C9. The normalizer is idempotent: normalizing a normalized URL changes nothing.
\<close>

theorem normalizeUrl_idempotent: "normalizeUrl (normalizeUrl s) = normalizeUrl s"
proof (cases "schemeRegexTest (trim s)")
  case True
  then have "normalizeUrl s = trim s" by (simp add: normalizeUrl_def)
  moreover have "trim (trim s) = trim s"
    by (rule trim_of_trimmed [OF trim_isTrimmed])
  ultimately show ?thesis using True by (simp add: normalizeUrl_def)
next
  case False
  then have eq: "normalizeUrl s = js ''https://'' @ trim s" by (simp add: normalizeUrl_def)
  have "trim (js ''https://'' @ trim s) = js ''https://'' @ trim s"
    by (rule trim_of_trimmed [OF https_prefix_trimmed [OF trim_isTrimmed]])
  then show ?thesis
    unfolding eq by (simp add: normalizeUrl_def https_prefix_scheme)
qed

theorem normalizeUrl_idempotent_witness:
  "normalizeUrl (normalizeUrl (js '' example.com/a b ''))
     = normalizeUrl (js '' example.com/a b '') \<and>
   normalizeUrl (js '' example.com/a b '') = js ''https://example.com/a b''"
  using normalizeUrl_idempotent [of "js '' example.com/a b ''"]
  by (simp add: normalizeUrl_def trim_def trimStart_def trimEnd_def isWhiteSpace_def js_def
      schemeRegexTest_def Canonicalize_def)

section \<open>Properties of the scan orchestrator\<close>

lemma firstFailure_Nil: "\<not> firstFailure [] i e"
  by (simp add: firstFailure_def)

lemma firstFailure_Cons:
  "firstFailure (s # sts) i e \<longleftrightarrow>
     (i = 0 \<and> s = Some e) \<or> (s = None \<and> (\<exists>j. i = Suc j \<and> firstFailure sts j e))"
  by (cases i) (auto simp: firstFailure_def)

lemma await_Some: "await (Some e) rest = Inl e"
  by (simp add: await_def)

lemma await_None: "await None rest = rest"
  by (simp add: await_def)

lemma scanWithAxe_launch_rejects:
  "launch ev = Some e \<Longrightarrow>
   scanWithAxe ev w u =
     (w\<lparr>launchCalls := launchCalls w + 1\<rparr>, Inr (catchBlock ev (normalizeUrl u) e))"
  by (simp add: scanWithAxe_def)

lemma scanWithAxe_launch_resolves:
  "launch ev = None \<Longrightarrow>
   scanWithAxe ev w u =
     (w\<lparr>launchCalls := launchCalls w + 1, acquired := acquired w + 1,
        released := released w + 1\<rparr>,
      case close ev of
        Some e \<Rightarrow> Inl e
      | None \<Rightarrow> Inr (case tryBlock ev (normalizeUrl u) of
                       Inl e \<Rightarrow> catchBlock ev (normalizeUrl u) e | Inr r \<Rightarrow> r))"
  by (simp add: scanWithAxe_def Let_def split: option.splits)


lemma textOf_mkText: "s \<noteq> [] \<Longrightarrow> textOf (mkText s) = s"
  by (simp add: mkText_inverse)

lemma shapeNodesUnchecked_typed: "shapeNodesUnchecked te (map Some ns) = Inr (map shapeNode ns)"
  by (induction ns) simp_all

lemma shapeViolationUnchecked_typed:
  "shapeViolationUnchecked te (violationAsEval v) = Inr (shapeViolation v)"
  by (cases "raw_nodes v")
     (simp_all add: shapeViolationUnchecked_def violationAsEval_def shapeViolation_def
        orEmpty_def shapeNodesUnchecked_typed)

lemma shapeViolationsUnchecked_typed:
  "shapeViolationsUnchecked te (map (\<lambda>v. Some (violationAsEval v)) vs)
     = Inr (map shapeViolation vs)"
  by (induction vs) (simp_all add: shapeViolationUnchecked_typed)

text \<open>On a value of the declared type the unchecked run is the typed function.\<close>

lemma toScanResponseUnchecked_typed:
  "toScanResponseUnchecked te ts u (resultAsEval result) = Inr (toScanResponse ts u result)"
  by (cases "run_violations result")
     (simp_all add: toScanResponseUnchecked_def resultAsEval_def toScanResponse_def orEmpty_def
        shapeViolationsUnchecked_typed)

lemma toScanResponseUnchecked_Inr:
  assumes "toScanResponseUnchecked te ts u v = Inr r"
  shows "ok r \<and> error r = None \<and> url r = Some u \<and> timestamp r = Some ts"
  using assms
  by (auto simp: toScanResponseUnchecked_def split: EvalValue.splits arrayField.splits sum.splits)

text \<open>The try block fails exactly with the first failure of the stages after the launch.\<close>

lemma tryBlock_Inl:
  "tryBlock ev t = Inl e \<longleftrightarrow> (\<exists>i. firstFailure (tl (stages ev t)) i e)"
  unfolding tryBlock_def stages_def shapingFailure_def
  by (cases "newContext ev"; cases "newPage ev"; cases "goto ev t"; cases "waitForTimeout ev";
      cases "addScriptTag ev"; cases "evaluate ev";
      cases "toScanResponseUnchecked (typeErrorAt ev) (now ev) t (projr (evaluate ev))")
     (simp_all add: firstFailure_Cons firstFailure_Nil await_Some await_None)

lemma tryBlock_Inr:
  "tryBlock ev t = Inr r \<longleftrightarrow>
     list_all (\<lambda>s. s = None) (tl (stages ev t)) \<and>
     (\<exists>v. evaluate ev = Inr v \<and>
          toScanResponseUnchecked (typeErrorAt ev) (now ev) t v = Inr r)"
  unfolding tryBlock_def stages_def shapingFailure_def
  by (cases "newContext ev"; cases "newPage ev"; cases "goto ev t"; cases "waitForTimeout ev";
      cases "addScriptTag ev"; cases "evaluate ev";
      cases "toScanResponseUnchecked (typeErrorAt ev) (now ev) t (projr (evaluate ev))")
     (auto simp add: await_Some await_None)

lemma firstFailure_unique:
  "firstFailure sts i e \<Longrightarrow> firstFailure sts j e' \<Longrightarrow> e = e'"
proof (induction sts arbitrary: i j)
  case Nil
  then show ?case by (simp add: firstFailure_Nil)
next
  case (Cons s sts)
  then show ?case by (auto simp: firstFailure_Cons)
qed

lemma firstFailure_not_all_None:
  "firstFailure sts i e \<Longrightarrow> \<not> list_all (\<lambda>s. s = None) sts"
proof (induction sts arbitrary: i)
  case Nil
  then show ?case by (simp add: firstFailure_Nil)
next
  case (Cons s sts)
  then show ?case by (auto simp: firstFailure_Cons)
qed

lemma stages_Cons: "stages ev t = launch ev # tl (stages ev t)"
  by (simp add: stages_def)

text \<open>What a call that returns has returned.\<close>

lemma scanWithAxe_result:
  assumes "snd (scanWithAxe ev w u) = Inr r"
  shows "(\<exists>i e. firstFailure (stages ev (normalizeUrl u)) i e \<and> r = catchBlock ev (normalizeUrl u) e)
       \<or> (list_all (\<lambda>s. s = None) (stages ev (normalizeUrl u)) \<and>
          (\<exists>v. evaluate ev = Inr v \<and>
             toScanResponseUnchecked (typeErrorAt ev) (now ev) (normalizeUrl u) v = Inr r))"
proof (cases "launch ev")
  case (Some e)
  then have "r = catchBlock ev (normalizeUrl u) e"
    using assms by (simp add: scanWithAxe_launch_rejects)
  moreover have "firstFailure (stages ev (normalizeUrl u)) 0 e"
    using Some by (subst stages_Cons) (simp add: firstFailure_Cons)
  ultimately show ?thesis by blast
next
  case None
  note resolved = None
  show ?thesis
  proof (cases "tryBlock ev (normalizeUrl u)")
    case (Inl e)
    then obtain i where "firstFailure (tl (stages ev (normalizeUrl u))) i e"
      using tryBlock_Inl by blast
    then have "firstFailure (stages ev (normalizeUrl u)) (Suc i) e"
      using resolved by (subst stages_Cons) (simp add: firstFailure_Cons)
    moreover have "r = catchBlock ev (normalizeUrl u) e"
      using assms resolved Inl by (simp add: scanWithAxe_launch_resolves split: option.splits)
    ultimately show ?thesis by blast
  next
    case (Inr r')
    then have "list_all (\<lambda>s. s = None) (tl (stages ev (normalizeUrl u)))"
      and "\<exists>v. evaluate ev = Inr v \<and>
             toScanResponseUnchecked (typeErrorAt ev) (now ev) (normalizeUrl u) v = Inr r'"
      using tryBlock_Inr by blast+
    moreover have "r = r'"
      using assms resolved Inr by (simp add: scanWithAxe_launch_resolves split: option.splits)
    moreover have "list_all (\<lambda>s. s = None) (stages ev (normalizeUrl u))
        = list_all (\<lambda>s. s = None) (tl (stages ev (normalizeUrl u)))"
      using resolved by (subst stages_Cons) simp
    ultimately show ?thesis by blast
  qed
qed

lemma scanWithAxe_returns_if:
  assumes "launch ev \<noteq> None \<or> close ev = None"
  shows "\<exists>r. snd (scanWithAxe ev w u) = Inr r"
proof (cases "launch ev")
  case None
  with assms have "close ev = None" by simp
  with None show ?thesis by (simp add: scanWithAxe_launch_resolves)
next
  case (Some e)
  then show ?thesis by (simp add: scanWithAxe_launch_rejects)
qed

lemma normalizeUrl_example: "normalizeUrl (js ''example.com'') = js ''https://example.com''"
  by (simp add: normalizeUrl_def trim_def trimStart_def trimEnd_def
      isWhiteSpace_def schemeRegexTest_def Canonicalize_def js_def)

lemma scanWithAxe_counters:
  "fst (scanWithAxe ev w u) =
     (if launch ev = None
      then w\<lparr>launchCalls := launchCalls w + 1, acquired := acquired w + 1,
             released := released w + 1\<rparr>
      else w\<lparr>launchCalls := launchCalls w + 1\<rparr>)"
  by (cases "launch ev") (simp_all add: scanWithAxe_launch_rejects scanWithAxe_launch_resolves)

lemma scanWithAxe_envOk:
  "scanWithAxe envOk world0 (js ''example.com'') =
      (\<lparr>launchCalls = 1, acquired = 1, released = 1\<rparr>,
       Inr (toScanResponse (now envOk) (js ''https://example.com'') engineResult))"
  by (simp add: scanWithAxe_def envOk_def tryBlock_def await_def normalizeUrl_example world0_def
      toScanResponseUnchecked_typed)

lemma message_errNameNotResolved:
  "(case message errNameNotResolved of None \<Rightarrow> js ''Scan failed'' | Some m \<Rightarrow> textOf m)
     = js ''page.goto: net::ERR_NAME_NOT_RESOLVED''"
  by (simp add: errNameNotResolved_def textOf_mkText js_def)

lemma message_errReadOfUndefined:
  "(case message errReadOfUndefined of None \<Rightarrow> js ''Scan failed'' | Some m \<Rightarrow> textOf m)
     = js ''Cannot read properties of undefined''"
  by (simp add: errReadOfUndefined_def textOf_mkText js_def)

lemma scanWithAxe_envGotoFails:
  "scanWithAxe envGotoFails world0 (js ''example.com'') =
      (\<lparr>launchCalls = 1, acquired = 1, released = 1\<rparr>,
       Inr \<lparr>ok = False, url = Some (js ''https://example.com''),
          timestamp = Some (js ''2025-12-30T10:00:00.000Z''), violations = [],
          error = Some (js ''page.goto: net::ERR_NAME_NOT_RESOLVED'')\<rparr>)"
  using message_errNameNotResolved
  by (simp add: scanWithAxe_def envGotoFails_def envOk_def tryBlock_def await_def
      normalizeUrl_example world0_def catchBlock_def)

text \<open>
  Claim C1, as the code has it. For every input string, when the \<open>browser.close()\<close> of
  the \<open>finally\<close> block does not reject (or no browser was launched), \<open>scanWithAxe\<close>
  returns a response and does not raise: the first failure among browser acquisition,
  navigation, script injection, audit execution and shaping is converted into the
  returned value with \<open>ok\<close> false, the normalized URL, the timestamp, no violations and,
  as \<open>error\<close>, the message of the failure, or \<open>Scan failed\<close> when it has no message;
  when no stage fails the response has \<open>ok\<close> true. (Normalization is a total function of
  the string: it has no failure.)
\<close>

theorem scanWithAxe_never_raises_unless_close:
  assumes "launch ev \<noteq> None \<or> close ev = None"
  shows "\<exists>r. snd (scanWithAxe ev w u) = Inr r \<and>
           (\<forall>i e. firstFailure (stages ev (normalizeUrl u)) i e \<longrightarrow>
              r = \<lparr>ok = False, url = Some (normalizeUrl u), timestamp = Some (now ev),
                   violations = [],
                   error = Some (case message e of None \<Rightarrow> js ''Scan failed''
                                 | Some m \<Rightarrow> textOf m)\<rparr>) \<and>
           (list_all (\<lambda>s. s = None) (stages ev (normalizeUrl u)) \<longrightarrow> ok r)"
proof -
  obtain r where r: "snd (scanWithAxe ev w u) = Inr r"
    using scanWithAxe_returns_if [OF assms] by blast
  have "r = catchBlock ev (normalizeUrl u) e"
    if "firstFailure (stages ev (normalizeUrl u)) i e" for i e
    using scanWithAxe_result [OF r] that firstFailure_unique firstFailure_not_all_None
    by blast
  moreover have "ok r" if "list_all (\<lambda>s. s = None) (stages ev (normalizeUrl u))"
    using scanWithAxe_result [OF r] that firstFailure_not_all_None toScanResponseUnchecked_Inr
    by blast
  ultimately show ?thesis
    using r by (auto simp: catchBlock_def)
qed

theorem scanWithAxe_never_raises_unless_close_witness:
  "close envGotoFails = None \<and>
   firstFailure (stages envGotoFails (normalizeUrl (js ''example.com''))) 3 errNameNotResolved \<and>
   snd (scanWithAxe envGotoFails world0 (js ''example.com'')) =
     Inr \<lparr>ok = False, url = Some (js ''https://example.com''),
          timestamp = Some (js ''2025-12-30T10:00:00.000Z''), violations = [],
          error = Some (js ''page.goto: net::ERR_NAME_NOT_RESOLVED'')\<rparr> \<and>
   close envUndefinedResult = None \<and>
   firstFailure (stages envUndefinedResult (normalizeUrl (js ''example.com''))) 7
     errReadOfUndefined \<and>
   snd (scanWithAxe envUndefinedResult world0 (js ''example.com'')) =
     Inr \<lparr>ok = False, url = Some (js ''https://example.com''),
          timestamp = Some (js ''2025-12-30T10:00:00.000Z''), violations = [],
          error = Some (js ''Cannot read properties of undefined'')\<rparr> \<and>
   close envOk = None \<and>
   list_all (\<lambda>s. s = None) (stages envOk (normalizeUrl (js ''example.com''))) \<and>
   (\<exists>r. snd (scanWithAxe envOk world0 (js ''example.com'')) = Inr r \<and> ok r)"
proof -
  have c: "close envGotoFails = None"
    by (simp add: envGotoFails_def envOk_def)
  then have h: "launch envGotoFails \<noteq> None \<or> close envGotoFails = None"
    by simp
  have ff: "firstFailure (stages envGotoFails (normalizeUrl (js ''example.com''))) 3 errNameNotResolved"
    by (simp add: firstFailure_def stages_def envGotoFails_def envOk_def numeral_3_eq_3)
  from scanWithAxe_never_raises_unless_close [OF h, of world0 "js ''example.com''"] ff
  have "snd (scanWithAxe envGotoFails world0 (js ''example.com'')) =
     Inr \<lparr>ok = False, url = Some (normalizeUrl (js ''example.com'')),
          timestamp = Some (now envGotoFails), violations = [],
          error = Some (case message errNameNotResolved of None \<Rightarrow> js ''Scan failed''
                        | Some m \<Rightarrow> textOf m)\<rparr>"
    by blast
  then have 1: "snd (scanWithAxe envGotoFails world0 (js ''example.com'')) =
     Inr \<lparr>ok = False, url = Some (js ''https://example.com''),
          timestamp = Some (js ''2025-12-30T10:00:00.000Z''), violations = [],
          error = Some (js ''page.goto: net::ERR_NAME_NOT_RESOLVED'')\<rparr>"
    by (simp add: normalizeUrl_example envGotoFails_def envOk_def message_errNameNotResolved)
  have cu: "close envUndefinedResult = None"
    by (simp add: envUndefinedResult_def envOk_def)
  then have hu: "launch envUndefinedResult \<noteq> None \<or> close envUndefinedResult = None"
    by simp
  have ffu: "firstFailure (stages envUndefinedResult (normalizeUrl (js ''example.com''))) 7
      errReadOfUndefined"
    by (simp add: firstFailure_def stages_def shapingFailure_def envUndefinedResult_def envOk_def
        toScanResponseUnchecked_def eval_nat_numeral)
  from scanWithAxe_never_raises_unless_close [OF hu, of world0 "js ''example.com''"] ffu
  have "snd (scanWithAxe envUndefinedResult world0 (js ''example.com'')) =
     Inr \<lparr>ok = False, url = Some (normalizeUrl (js ''example.com'')),
          timestamp = Some (now envUndefinedResult), violations = [],
          error = Some (case message errReadOfUndefined of None \<Rightarrow> js ''Scan failed''
                        | Some m \<Rightarrow> textOf m)\<rparr>"
    by blast
  then have 2: "snd (scanWithAxe envUndefinedResult world0 (js ''example.com'')) =
     Inr \<lparr>ok = False, url = Some (js ''https://example.com''),
          timestamp = Some (js ''2025-12-30T10:00:00.000Z''), violations = [],
          error = Some (js ''Cannot read properties of undefined'')\<rparr>"
    by (simp add: normalizeUrl_example envUndefinedResult_def envOk_def
        message_errReadOfUndefined)
  have c': "close envOk = None"
    by (simp add: envOk_def)
  then have h': "launch envOk \<noteq> None \<or> close envOk = None"
    by simp
  have an: "list_all (\<lambda>s. s = None) (stages envOk (normalizeUrl (js ''example.com'')))"
    by (simp add: stages_def shapingFailure_def envOk_def toScanResponseUnchecked_typed)
  from scanWithAxe_never_raises_unless_close [OF h', of world0 "js ''example.com''"] an
  have 3: "\<exists>r. snd (scanWithAxe envOk world0 (js ''example.com'')) = Inr r \<and> ok r"
    by blast
  show ?thesis
    using c ff 1 cu ffu 2 c' an 3 by blast
qed

text \<open>
  The claim as stated says that the call never raises. A rejection of \<open>browser.close()\<close>
  in the \<open>finally\<close> block is not caught: the call then rejects with it.
\<close>

theorem scanWithAxe_close_rejects_counterexample:
  "snd (scanWithAxe envCloseFails world0 (js ''example.com'')) = Inl errClose"
  by (simp add: scanWithAxe_def envCloseFails_def envOk_def)



text \<open>
  Claim C4, as the code has it. Each call of \<open>scanWithAxe\<close> calls \<open>chromium.launch\<close>
  once and acquires at most one browser, and \<open>browser.close()\<close> is called, before the
  call returns or raises, on exactly the browsers that were acquired. So N calls make N
  launch calls and as many releases as acquisitions, one for each call whose launch
  resolved: at most N, and N exactly when every launch resolves.
\<close>

theorem scanMany_acquisitions_releases:
  "length (snd (scanMany w calls)) = length calls \<and>
   launchCalls (fst (scanMany w calls)) = launchCalls w + length calls \<and>
   acquired (fst (scanMany w calls)) = acquired w + launched calls \<and>
   released (fst (scanMany w calls)) = released w + launched calls \<and>
   launched calls \<le> length calls \<and>
   (launched calls = length calls \<longleftrightarrow> list_all (\<lambda>c. launch (fst c) = None) calls)"
proof (induction calls arbitrary: w)
  case Nil
  then show ?case by (simp add: launched_def)
next
  case (Cons c calls)
  obtain ev u where c: "c = (ev, u)" by (cases c)
  obtain w' r where s: "scanWithAxe ev w u = (w', r)" by (cases "scanWithAxe ev w u")
  have w': "w' =
     (if launch ev = None
      then w\<lparr>launchCalls := launchCalls w + 1, acquired := acquired w + 1,
             released := released w + 1\<rparr>
      else w\<lparr>launchCalls := launchCalls w + 1\<rparr>)"
    using scanWithAxe_counters [of ev w u] by (simp add: s)
  obtain w'' rs where m: "scanMany w' calls = (w'', rs)" by (cases "scanMany w' calls")
  have le: "launched calls \<le> length calls"
    unfolding launched_def by (rule length_filter_le)
  have l: "launched ((ev, u) # calls) = (if launch ev = None then 1 else 0) + launched calls"
    by (simp add: launched_def)
  have step: "scanMany w ((ev, u) # calls) = (w'', r # rs)"
    by (simp add: s m)
  have ih: "length rs = length calls"
    "launchCalls w'' = launchCalls w' + length calls"
    "acquired w'' = acquired w' + launched calls"
    "released w'' = released w' + launched calls"
    "(launched calls = length calls) = list_all (\<lambda>c. launch (fst c) = None) calls"
    using Cons.IH [of w'] by (simp_all add: m)
  show ?case
    unfolding c step l using ih le by (auto simp: w')
qed

theorem scanMany_acquisitions_releases_witness:
  "acquired (fst (scanMany world0 [(envOk, js ''a.com''), (envLaunchFails, js ''b.com''),
      (envGotoFails, js ''c.com''), (envCloseFails, js ''d.com'')])) = 3 \<and>
   released (fst (scanMany world0 [(envOk, js ''a.com''), (envLaunchFails, js ''b.com''),
      (envGotoFails, js ''c.com''), (envCloseFails, js ''d.com'')])) = 3 \<and>
   launchCalls (fst (scanMany world0 [(envOk, js ''a.com''), (envLaunchFails, js ''b.com''),
      (envGotoFails, js ''c.com''), (envCloseFails, js ''d.com'')])) = 4"
  using scanMany_acquisitions_releases [of world0 "[(envOk, js ''a.com''),
      (envLaunchFails, js ''b.com''), (envGotoFails, js ''c.com''), (envCloseFails, js ''d.com'')]"]
  by (simp add: launched_def world0_def envOk_def envLaunchFails_def envGotoFails_def
      envCloseFails_def)

text \<open>
  The claim as stated says N acquisitions and N releases for N calls under any mix of
  outcomes. A call whose launch rejects acquires nothing and releases nothing.
\<close>

theorem scanMany_launch_rejects_counterexample:
  "length [(envLaunchFails, js ''example.com'')] = 1 \<and>
   acquired (fst (scanMany world0 [(envLaunchFails, js ''example.com'')])) = 0 \<and>
   released (fst (scanMany world0 [(envLaunchFails, js ''example.com'')])) = 0"
  by (simp add: scanWithAxe_def envLaunchFails_def envOk_def world0_def)

section \<open>Properties of the HTTP endpoint\<close>

lemma spec_urlMissing_iff:
  "spec_urlMissing f \<longleftrightarrow> \<not> truthy f \<or> typeof f \<noteq> js ''string''"
  by (cases f rule: typeof.cases) (simp_all add: js_def)

lemma spec_urlField_destructure:
  "reqBody \<noteq> JNull \<Longrightarrow> destructureUrl typeError reqBody = Inr (spec_urlField reqBody)"
  by (cases reqBody) simp_all

text \<open>
  Claim C5, as the code has it. For every request body that is a JSON value other than
  \<open>null\<close> and in which the field \<open>url\<close> is missing, is not a string or is the empty
  string (the request \<open>{url: ""}\<close> among them), the endpoint answers with the status 400
  and the body with \<open>ok\<close> false, no violations and the error \<open>Missing url\<close>, and the
  orchestrator is not called: the counters are unchanged, which no call of \<open>scanWithAxe\<close>
  leaves them, and the answer does not depend on what a scan would do.
\<close>

theorem POST_missing_url:
  assumes "reqBody \<noteq> JNull" and "spec_urlMissing (spec_urlField reqBody)"
  shows "POST typeError ev w (Inr reqBody) =
           (w, \<lparr>status = 400,
                body = \<lparr>ok = False, url = None, timestamp = None, violations = [],
                        error = Some (js ''Missing url'')\<rparr>\<rparr>) \<and>
         (\<forall>s. launchCalls (fst (scanWithAxe ev w s))
               \<noteq> launchCalls (fst (POST typeError ev w (Inr reqBody))))"
proof -
  have "POST typeError ev w (Inr reqBody) =
           (w, \<lparr>status = 400,
                body = \<lparr>ok = False, url = None, timestamp = None, violations = [],
                        error = Some (js ''Missing url'')\<rparr>\<rparr>)"
    using assms
    by (simp add: POST_def spec_urlField_destructure spec_urlMissing_iff missingUrlResponse_def)
  then show ?thesis
    by (simp add: scanWithAxe_counters)
qed

theorem POST_missing_url_witness:
  "JObj [(js ''url'', JStr [])] \<noteq> JNull \<and>
   spec_urlMissing (spec_urlField (JObj [(js ''url'', JStr [])])) \<and>
   POST errTypeError envOk world0 (Inr (JObj [(js ''url'', JStr [])])) =
     (world0, \<lparr>status = 400,
                body = \<lparr>ok = False, url = None, timestamp = None, violations = [],
                        error = Some (js ''Missing url'')\<rparr>\<rparr>) \<and>
   spec_urlMissing (spec_urlField (JObj [])) \<and>
   status (snd (POST errTypeError envOk world0 (Inr (JObj [])))) = 400 \<and>
   spec_urlMissing (spec_urlField (JObj [(js ''url'', JNum 5)])) \<and>
   status (snd (POST errTypeError envOk world0 (Inr (JObj [(js ''url'', JNum 5)])))) = 400 \<and>
   spec_urlMissing (spec_urlField (JArr [])) \<and>
   status (snd (POST errTypeError envOk world0 (Inr (JArr [])))) = 400"
proof -
  have n: "JObj [(js ''url'', JStr [])] \<noteq> JNull" "JObj [] \<noteq> JNull"
    "JObj [(js ''url'', JNum 5)] \<noteq> JNull" "JArr [] \<noteq> JNull"
    by simp_all
  have h: "spec_urlMissing (spec_urlField (JObj [(js ''url'', JStr [])]))"
    "spec_urlMissing (spec_urlField (JObj []))"
    "spec_urlMissing (spec_urlField (JObj [(js ''url'', JNum 5)]))"
    "spec_urlMissing (spec_urlField (JArr []))"
    by simp_all
  show ?thesis
    using n h POST_missing_url [OF n(1) h(1), of errTypeError envOk world0]
      POST_missing_url [OF n(2) h(2), of errTypeError envOk world0]
      POST_missing_url [OF n(3) h(3), of errTypeError envOk world0]
      POST_missing_url [OF n(4) h(4), of errTypeError envOk world0]
    by simp
qed

text \<open>
  The claim as stated is about every request body without a usable \<open>url\<close>. The body
  \<open>null\<close> has no field \<open>url\<close>, but taking the field of \<open>null\<close> throws: the \<open>catch\<close>
  block of the handler answers, with the status 500 and the text of the TypeError.
\<close>

theorem POST_null_body_counterexample:
  "spec_urlMissing (spec_urlField JNull) \<and>
   POST errTypeError envOk world0 (Inr JNull) =
     (world0, \<lparr>status = 500,
                body = \<lparr>ok = False, url = None, timestamp = None, violations = [],
                        error = Some (js ''Cannot destructure property'' @ [0x0A])\<rparr>\<rparr>)"
  by (simp add: POST_def handlerCatch_def errTypeError_def textOf_mkText js_def)

text \<open>
  Claim C6. For every request whose \<open>url\<close> is a non-empty string the endpoint calls the
  orchestrator once, on that string, and what the orchestrator returns decides the
  answer: the status is 200 when \<open>ok\<close> is true and 500 when it is false, and the body is
  the response unchanged. (When the orchestrator raises instead of returning, there is no
  response to pass on and the \<open>catch\<close> block of the handler answers.)
\<close>

theorem POST_status_from_ok:
  assumes "map_of props (js ''url'') = Some (JStr s)" and "s \<noteq> []"
  shows "POST typeError ev w (Inr (JObj props)) =
           (case scanWithAxe ev w s of
              (w', Inr result) \<Rightarrow>
                (w', \<lparr>status = (if ok result then 200 else 500), body = result\<rparr>)
            | (w', Inl e) \<Rightarrow> (w', handlerCatch e)) \<and>
         launchCalls (fst (POST typeError ev w (Inr (JObj props)))) = launchCalls w + 1"
proof -
  have eq: "POST typeError ev w (Inr (JObj props)) =
           (case scanWithAxe ev w s of
              (w', Inr result) \<Rightarrow>
                (w', \<lparr>status = (if ok result then 200 else 500), body = result\<rparr>)
            | (w', Inl e) \<Rightarrow> (w', handlerCatch e))"
    using assms by (simp add: POST_def js_def split: prod.splits sum.splits)
  have "fst (POST typeError ev w (Inr (JObj props))) = fst (scanWithAxe ev w s)"
    unfolding eq by (simp split: prod.splits sum.splits)
  then show ?thesis
    using eq by (simp add: scanWithAxe_counters)
qed

theorem POST_status_from_ok_witness:
  "POST errTypeError envOk world0 (Inr (JObj [(js ''url'', JStr (js ''example.com''))])) =
     (\<lparr>launchCalls = 1, acquired = 1, released = 1\<rparr>,
      \<lparr>status = 200,
       body = toScanResponse (now envOk) (js ''https://example.com'') engineResult\<rparr>) \<and>
   POST errTypeError envGotoFails world0 (Inr (JObj [(js ''url'', JStr (js ''example.com''))])) =
     (\<lparr>launchCalls = 1, acquired = 1, released = 1\<rparr>,
      \<lparr>status = 500,
       body = \<lparr>ok = False, url = Some (js ''https://example.com''),
          timestamp = Some (js ''2025-12-30T10:00:00.000Z''), violations = [],
          error = Some (js ''page.goto: net::ERR_NAME_NOT_RESOLVED'')\<rparr>\<rparr>)"
proof -
  have m: "map_of [(js ''url'', JStr (js ''example.com''))] (js ''url'') = Some (JStr (js ''example.com''))"
    by simp
  have n: "js ''example.com'' \<noteq> []"
    by (simp add: js_def)
  note a = scanWithAxe_envOk
  note b = scanWithAxe_envGotoFails
  show ?thesis
    using POST_status_from_ok [OF m n, of errTypeError envOk world0]
      POST_status_from_ok [OF m n, of errTypeError envGotoFails world0]
    by (simp add: a b toScanResponse_def)
qed

section \<open>Properties of the result shaper\<close>

lemma shapeNode_asRaw: "shapeNode (nodeAsRaw n) = n"
  by (simp add: shapeNode_def nodeAsRaw_def)

lemma shapeViolation_asRaw: "shapeViolation (violationAsRaw v) = v"
  by (simp add: shapeViolation_def violationAsRaw_def orEmpty_def comp_def shapeNode_asRaw)

lemma violations_toScanResponse:
  "violations (toScanResponse ts u result) = map shapeViolation (orEmpty (run_violations result))"
  by (simp add: toScanResponse_def)

text \<open>
  Claim C7. The shaper is total and idempotent on every engine result, also with no
  violations list, with records without \<open>tags\<close> and without \<open>impact\<close>: the violation
  list it produces has the length of the input list and the same records in the same
  order, field by field, nothing filtered and nothing merged, a missing \<open>tags\<close> being the
  empty list; and shaping an already shaped violation list leaves it unchanged.
\<close>

theorem toScanResponse_total_idempotent:
  "length (violations (toScanResponse ts u result)) = length (orEmpty (run_violations result)) \<and>
   map id' (violations (toScanResponse ts u result)) = map raw_id (orEmpty (run_violations result)) \<and>
   (\<forall>i < length (orEmpty (run_violations result)).
      id' (violations (toScanResponse ts u result) ! i) = raw_id (orEmpty (run_violations result) ! i) \<and>
      impact (violations (toScanResponse ts u result) ! i) = raw_impact (orEmpty (run_violations result) ! i) \<and>
      description (violations (toScanResponse ts u result) ! i) = raw_description (orEmpty (run_violations result) ! i) \<and>
      help' (violations (toScanResponse ts u result) ! i) = raw_help (orEmpty (run_violations result) ! i) \<and>
      helpUrl (violations (toScanResponse ts u result) ! i) = raw_helpUrl (orEmpty (run_violations result) ! i) \<and>
      tags (violations (toScanResponse ts u result) ! i) =
        (case raw_tags (orEmpty (run_violations result) ! i) of None \<Rightarrow> [] | Some t \<Rightarrow> t) \<and>
      length (nodes (violations (toScanResponse ts u result) ! i)) =
        (case raw_nodes (orEmpty (run_violations result) ! i) of None \<Rightarrow> 0 | Some ns \<Rightarrow> length ns)) \<and>
   (run_violations result = None \<longrightarrow> violations (toScanResponse ts u result) = []) \<and>
   violations (toScanResponse ts' u' (responseAsRaw (toScanResponse ts u result)))
     = violations (toScanResponse ts u result)"
proof (intro conjI allI impI)
  show "length (violations (toScanResponse ts u result)) = length (orEmpty (run_violations result))"
    by (simp add: violations_toScanResponse)
  show "map id' (violations (toScanResponse ts u result)) = map raw_id (orEmpty (run_violations result))"
    by (simp add: violations_toScanResponse shapeViolation_def comp_def)
  show "run_violations result = None \<Longrightarrow> violations (toScanResponse ts u result) = []"
    by (simp add: violations_toScanResponse orEmpty_def)
  show "violations (toScanResponse ts' u' (responseAsRaw (toScanResponse ts u result)))
     = violations (toScanResponse ts u result)"
    by (simp add: violations_toScanResponse responseAsRaw_def orEmpty_def shapeViolation_asRaw)
qed (simp_all add: violations_toScanResponse shapeViolation_def orEmpty_def split: option.splits)

theorem toScanResponse_total_idempotent_witness:
  "(0::nat) < length (orEmpty (run_violations engineResult)) \<and>
   length (violations (toScanResponse [] (js ''https://example.com'') engineResult)) = 2 \<and>
   raw_tags (orEmpty (run_violations engineResult) ! 0) = None \<and>
   tags (violations (toScanResponse [] (js ''https://example.com'') engineResult) ! 0) = [] \<and>
   impact (violations (toScanResponse [] (js ''https://example.com'') engineResult) ! 0) = None"
  using toScanResponse_total_idempotent [of "[]" "js ''https://example.com''" engineResult]
  by (simp add: engineResult_def orEmpty_def rawImageAlt_def)

text \<open>
  Claim C8, as the code has it. The shaper reads the clock. Two calls on the same URL and
  the same engine result give responses with equal \<open>ok\<close>, \<open>url\<close>, \<open>violations\<close> and
  \<open>error\<close>; the \<open>timestamp\<close> is the clock reading of each call, so the two responses are
  equal exactly when the two clock readings are.
\<close>

theorem toScanResponse_deterministic_up_to_clock:
  "(toScanResponse ts1 u result = toScanResponse ts2 u result \<longleftrightarrow> ts1 = ts2) \<and>
   ok (toScanResponse ts1 u result) = ok (toScanResponse ts2 u result) \<and>
   url (toScanResponse ts1 u result) = url (toScanResponse ts2 u result) \<and>
   violations (toScanResponse ts1 u result) = violations (toScanResponse ts2 u result) \<and>
   error (toScanResponse ts1 u result) = error (toScanResponse ts2 u result) \<and>
   timestamp (toScanResponse ts1 u result) = Some ts1"
  by (auto simp: toScanResponse_def)

theorem toScanResponse_deterministic_up_to_clock_witness:
  "toScanResponse (js ''2025-12-30T10:00:00.000Z'') (js ''https://example.com'') engineResult
     = toScanResponse (js ''2025-12-30T10:00:00.000Z'') (js ''https://example.com'') engineResult \<and>
   violations (toScanResponse (js ''2025-12-30T10:00:00.000Z'') (js ''https://example.com'') engineResult)
     = violations (toScanResponse (js ''2025-12-30T10:00:00.001Z'') (js ''https://example.com'') engineResult)"
  using toScanResponse_deterministic_up_to_clock [of "js ''2025-12-30T10:00:00.000Z''"
      "js ''https://example.com''" engineResult "js ''2025-12-30T10:00:00.001Z''"]
  by simp

text \<open>
  The claim as stated has the timestamps equal as well. Two calls one millisecond apart
  give different responses.
\<close>

theorem toScanResponse_timestamp_counterexample:
  "toScanResponse (js ''2025-12-30T10:00:00.000Z'') (js ''https://example.com'') engineResult
     \<noteq> toScanResponse (js ''2025-12-30T10:00:00.001Z'') (js ''https://example.com'') engineResult"
  by (simp add: toScanResponse_def js_def)

section \<open>Properties of the impact filter\<close>

lemma passesImpact_None: "passesImpact m None \<longleftrightarrow> m = MinAll"
  by (cases m) (simp_all add: passesImpact_def IMPACT_RANK_def minImpactKey_def js_def)

lemma passesImpact_minor: "passesImpact m (Some (js ''minor'')) \<longleftrightarrow> m = MinAll"
  by (cases m) (simp_all add: passesImpact_def IMPACT_RANK_def minImpactKey_def js_def)

text \<open>
  Claim C10. In the impact filter of the client a violation without \<open>impact\<close> is ranked
  as minor: it passes the filter exactly when the threshold is \<open>all\<close>, as a violation of
  impact minor does, and for every violation list it is among the filtered violations
  exactly when the threshold is \<open>all\<close>, it is in the list and it matches the query; it
  is excluded under the thresholds moderate, serious and critical.
\<close>

theorem absent_impact_ranked_minor:
  "(passesImpact m None \<longleftrightarrow> m = MinAll) \<and>
   passesImpact m None = passesImpact m (Some (impactKey Minor)) \<and>
   (impact v = None \<longrightarrow>
      (v \<in> set (filteredViolations lower (Some d) query m) \<longleftrightarrow>
         m = MinAll \<and> v \<in> set (violations d) \<and> matchesQuery lower (lower (trim query)) v))"
  by (auto simp: passesImpact_None passesImpact_minor impactKey_def filteredViolations_def)

theorem absent_impact_ranked_minor_witness:
  "impact (shapeViolation rawImageAlt) = None \<and>
   shapeViolation rawImageAlt \<in> set (violations (toScanResponse [] [] engineResult)) \<and>
   matchesQuery (map asciiLower) (map asciiLower (trim [])) (shapeViolation rawImageAlt) \<and>
   shapeViolation rawImageAlt
     \<in> set (filteredViolations (map asciiLower) (Some (toScanResponse [] [] engineResult)) [] MinAll) \<and>
   shapeViolation rawImageAlt
     \<notin> set (filteredViolations (map asciiLower) (Some (toScanResponse [] [] engineResult)) []
          MinModerate) \<and>
   \<not> passesImpact MinSerious None \<and> \<not> passesImpact MinCritical None"
proof -
  have i: "impact (shapeViolation rawImageAlt) = None"
    by (simp add: shapeViolation_def rawImageAlt_def)
  have v: "shapeViolation rawImageAlt \<in> set (violations (toScanResponse [] [] engineResult))"
    by (simp add: toScanResponse_def engineResult_def orEmpty_def)
  have q: "matchesQuery (map asciiLower) (map asciiLower (trim [])) (shapeViolation rawImageAlt)"
    by (simp add: matchesQuery_def trim_def trimStart_def trimEnd_def)
  note t = absent_impact_ranked_minor [of _ "shapeViolation rawImageAlt" "map asciiLower"
      "toScanResponse [] [] engineResult" "[]"]
  have a: "shapeViolation rawImageAlt
     \<in> set (filteredViolations (map asciiLower) (Some (toScanResponse [] [] engineResult)) [] MinAll)"
    using t [of MinAll] i v q by blast
  have b: "shapeViolation rawImageAlt
     \<notin> set (filteredViolations (map asciiLower) (Some (toScanResponse [] [] engineResult)) []
          MinModerate)"
    using t [of MinModerate] i by blast
  have c: "\<not> passesImpact MinSerious None" "\<not> passesImpact MinCritical None"
    using t [of MinSerious] t [of MinCritical] by simp_all
  show ?thesis
    using i v q a b c by blast
qed

end
